theory Spec2Isabelle
  imports Complex_Main "HOL-Library.Word" "HOL-Library.Signed_Division"
begin

section \<open>Machine numbers\<close>

subsection \<open>\<open>int64_t\<close>\<close>

text \<open>
  The Int payload is an \<open>int64_t\<close>: a 64-bit word read in two's complement by \<open>sint\<close>.
  \<open>+\<close> and \<open>*\<close> on words wrap around, as the hardware does where C++ leaves signed
  overflow undefined.
\<close>

type_synonym int64 = "64 word"

definition INT64_MIN :: int64 where
  "INT64_MIN = - 9223372036854775808"

definition int64_range :: "int \<Rightarrow> bool" where
  "int64_range k \<longleftrightarrow> - (2 ^ 63) \<le> k \<and> k < 2 ^ 63"

text \<open>
  The built-in \<open>/\<close> and \<open>%\<close> of C++ truncate toward zero (\<open>sdiv\<close> and \<open>smod\<close> on \<open>int\<close>).
  Both are undefined when the divisor is 0 and when the quotient does not fit the type,
  which is the case of \<open>INT64_MIN / -1\<close> and \<open>INT64_MIN % -1\<close>; on x86-64 the division
  instruction traps there and the process dies with \<open>SIGFPE\<close>. \<open>None\<close> is that outcome.
\<close>

definition int64_div :: "int64 \<Rightarrow> int64 \<Rightarrow> int64 option" where
  "int64_div a b =
     (if b = 0 \<or> \<not> int64_range (sint a sdiv sint b) then None
      else Some (word_of_int (sint a sdiv sint b)))"

definition int64_mod :: "int64 \<Rightarrow> int64 \<Rightarrow> int64 option" where
  "int64_mod a b =
     (if b = 0 \<or> \<not> int64_range (sint a sdiv sint b) then None
      else Some (word_of_int (sint a smod sint b)))"

subsection \<open>\<open>double\<close>\<close>

text \<open>
  The Float payload is an IEEE-754 binary64 value: a sign bit, an 11-bit biased
  exponent and a 52-bit fraction. Every combination of the three fields is a double.
\<close>

datatype double = Double (sign_bit: bool) (exp_bits: "11 word") (frac_bits: "52 word")

definition pow2 :: "int \<Rightarrow> rat" where
  "pow2 e = (if 0 \<le> e then 2 ^ nat e else 1 / 2 ^ nat (- e))"

definition is_nan :: "double \<Rightarrow> bool" where
  "is_nan d \<longleftrightarrow> exp_bits d = 2047 \<and> frac_bits d \<noteq> 0"

definition is_inf :: "double \<Rightarrow> bool" where
  "is_inf d \<longleftrightarrow> exp_bits d = 2047 \<and> frac_bits d = 0"

definition is_finite :: "double \<Rightarrow> bool" where
  "is_finite d \<longleftrightarrow> exp_bits d \<noteq> 2047"

definition is_zero :: "double \<Rightarrow> bool" where
  "is_zero d \<longleftrightarrow> exp_bits d = 0 \<and> frac_bits d = 0"

text \<open>The number a finite double stands for (subnormal when the exponent field is 0).\<close>

definition valof :: "double \<Rightarrow> rat" where
  "valof d =
     (if sign_bit d then - 1 else 1) *
     (if exp_bits d = 0 then of_int (uint (frac_bits d)) * pow2 (- 1074)
      else of_int (2 ^ 52 + uint (frac_bits d)) * pow2 (uint (exp_bits d) - 1075))"

definition double_zero :: double where
  "double_zero = Double False 0 0"

definition double_inf :: "bool \<Rightarrow> double" where
  "double_inf s = Double s 2047 0"

text \<open>
  The NaN an operation produces. IEEE-754 fixes neither its sign nor its payload; the
  model takes the positive quiet NaN with an empty payload.
\<close>

definition double_nan :: double where
  "double_nan = Double False 2047 (2 ^ 51)"

text \<open>\<open>==\<close> on doubles: a NaN equals nothing, the two zeros are equal.\<close>

definition double_eq :: "double \<Rightarrow> double \<Rightarrow> bool" where
  "double_eq x y \<longleftrightarrow> \<not> is_nan x \<and> \<not> is_nan y \<and> (x = y \<or> (is_zero x \<and> is_zero y))"

text \<open>Rounding to nearest, ties to even: the default rounding mode.\<close>

definition round_half_even :: "rat \<Rightarrow> int" where
  "round_half_even x =
     (let f = \<lfloor>x\<rfloor>; r = x - of_int f
      in if r < 1 / 2 then f else if 1 / 2 < r then f + 1 else if even f then f else f + 1)"

text \<open>The number of binary digits of a positive integer.\<close>

function bitlen :: "int \<Rightarrow> int" where
  "bitlen n = (if n \<le> 0 then 0 else 1 + bitlen (n div 2))"
  by pat_completeness auto
termination
  by (relation "measure nat") auto

declare bitlen.simps [simp del]

text \<open>\<open>\<lfloor>log\<^sub>2 q\<rfloor>\<close> for a positive rational.\<close>

definition ilog2 :: "rat \<Rightarrow> int" where
  "ilog2 q =
     (let (p, r) = quotient_of q;
          d = bitlen p - bitlen r
      in if pow2 d \<le> q then d else d - 1)"

text \<open>
  The double nearest to \<open>\<plusminus>q\<close> for a magnitude \<open>q \<ge> 0\<close>. With \<open>e\<close> the exponent of \<open>q\<close>
  (at least that of the subnormals) and \<open>n\<close> the significand rounded to an integer, the
  fields are read off \<open>(e + 1022) * 2\<^sup>5\<^sup>2 + n\<close>: a significand that rounds up
  to \<open>2\<^sup>5\<^sup>3\<close> carries into the exponent, and anything from \<open>2047 * 2\<^sup>5\<^sup>2\<close> on is infinity.
\<close>

definition round_double :: "bool \<Rightarrow> rat \<Rightarrow> double" where
  "round_double s q =
     (if q = 0 then Double s 0 0
      else let e = max (ilog2 q) (- 1022);
               n = round_half_even (q / pow2 (e - 52));
               b = (e + 1022) * 2 ^ 52 + n
           in if 2047 * 2 ^ 52 \<le> b then double_inf s
              else Double s (word_of_int (b div 2 ^ 52)) (word_of_int (b mod 2 ^ 52)))"

text \<open>\<open>static_cast<double>(int64_t)\<close>.\<close>

definition int64_to_double :: "int64 \<Rightarrow> double" where
  "int64_to_double i = round_double (sint i < 0) (of_int \<bar>sint i\<bar>)"

text \<open>
  The distance between neighbouring doubles at the magnitude of an integer \<open>k\<close>, or 1
  where the doubles lie closer than that: a double has 53 significant bits, so from
  \<open>2\<^sup>5\<^sup>3\<close> on the doubles are the multiples of 2, from \<open>2\<^sup>5\<^sup>4\<close> on those of 4, and so on.
\<close>

definition spacing :: "int \<Rightarrow> int" where
  "spacing k = 2 ^ nat (bitlen \<bar>k\<bar> - 53)"

text \<open>Truncation toward zero of a rational.\<close>

definition trunc_rat :: "rat \<Rightarrow> int" where
  "trunc_rat q = (if q < 0 then - \<lfloor>- q\<rfloor> else \<lfloor>q\<rfloor>)"

text \<open>
  \<open>static_cast<int64_t>(double)\<close>: the fractional part is discarded. C++ leaves the
  conversion undefined when the truncated value does not fit (and for NaN and the
  infinities); the model then returns \<open>INT64_MIN\<close>, as the x86-64 conversion does.
\<close>

definition double_to_int64 :: "double \<Rightarrow> int64" where
  "double_to_int64 d =
     (if is_finite d \<and> - (2 ^ 63) \<le> trunc_rat (valof d) \<and> trunc_rat (valof d) < 2 ^ 63
      then word_of_int (trunc_rat (valof d))
      else word_of_int (- (2 ^ 63)))"

text \<open>\<open>+\<close> on doubles.\<close>

definition double_add :: "double \<Rightarrow> double \<Rightarrow> double" where
  "double_add x y =
     (if is_nan x \<or> is_nan y then double_nan
      else if is_inf x then (if is_inf y \<and> sign_bit x \<noteq> sign_bit y then double_nan else x)
      else if is_inf y then y
      else let r = valof x + valof y
           in if r = 0 then Double (sign_bit x \<and> sign_bit y) 0 0
              else round_double (r < 0) \<bar>r\<bar>)"

text \<open>\<open>*\<close> on doubles.\<close>

definition double_mul :: "double \<Rightarrow> double \<Rightarrow> double" where
  "double_mul x y =
     (if is_nan x \<or> is_nan y then double_nan
      else if is_inf x \<or> is_inf y then
        (if is_zero x \<or> is_zero y then double_nan else double_inf (sign_bit x \<noteq> sign_bit y))
      else round_double (sign_bit x \<noteq> sign_bit y) (\<bar>valof x\<bar> * \<bar>valof y\<bar>))"

text \<open>\<open>/\<close> on doubles.\<close>

definition double_div :: "double \<Rightarrow> double \<Rightarrow> double" where
  "double_div x y =
     (if is_nan x \<or> is_nan y then double_nan
      else if is_inf x then (if is_inf y then double_nan else double_inf (sign_bit x \<noteq> sign_bit y))
      else if is_inf y then Double (sign_bit x \<noteq> sign_bit y) 0 0
      else if is_zero y then (if is_zero x then double_nan else double_inf (sign_bit x \<noteq> sign_bit y))
      else round_double (sign_bit x \<noteq> sign_bit y) (\<bar>valof x\<bar> / \<bar>valof y\<bar>))"

section \<open>Values\<close>

datatype ValueType = Type_Null | Type_Bool | Type_Int | Type_Float | Type_String | Type_Struct | Type_Array

text \<open>
  \<open>Value::data\<close> is a variant with one alternative per tag. The last two hold a
  \<open>shared_ptr\<close>: the payload is the address of an instance in the store, and copies of
  the Value share the instance.
\<close>

type_synonym addr = nat

datatype Value =
    VNull
  | VBool bool
  | VInt int64
  | VFloat double
  | VString string
  | VStruct addr
  | VArray addr

record StructInstance =
  structName :: string
  fields_of :: "string \<rightharpoonup> Value"

type_synonym ArrayInstance = "Value list"

text \<open>
  The store holds the instances the handles point to; \<open>used\<close> is the next address
  \<open>make_shared\<close> hands out. The handles are those \<open>createStruct\<close> and \<open>createArray\<close>
  return, which are never null, and a handle always points to an instance (shared
  ownership keeps the instance alive as long as a handle to it exists), so the store is
  total.
\<close>

record store =
  structs :: "addr \<Rightarrow> StructInstance"
  arrays :: "addr \<Rightarrow> ArrayInstance"
  used :: addr

text \<open>
  Every failure \<open>Value\<close> raises is a \<open>std::runtime_error\<close> with a message. The other way
  an operation can end without a result is an undefined built-in operation, which no
  caller can catch.
\<close>

datatype error = runtime_error string | undefined_behaviour

fun getType :: "Value \<Rightarrow> ValueType" where
  "getType VNull = Type_Null"
| "getType (VBool _) = Type_Bool"
| "getType (VInt _) = Type_Int"
| "getType (VFloat _) = Type_Float"
| "getType (VString _) = Type_String"
| "getType (VStruct _) = Type_Struct"
| "getType (VArray _) = Type_Array"

definition isNull :: "Value \<Rightarrow> bool" where
  "isNull v \<longleftrightarrow> getType v = Type_Null"

definition isBool :: "Value \<Rightarrow> bool" where
  "isBool v \<longleftrightarrow> getType v = Type_Bool"

definition isInt :: "Value \<Rightarrow> bool" where
  "isInt v \<longleftrightarrow> getType v = Type_Int"

definition isFloat :: "Value \<Rightarrow> bool" where
  "isFloat v \<longleftrightarrow> getType v = Type_Float"

definition isString :: "Value \<Rightarrow> bool" where
  "isString v \<longleftrightarrow> getType v = Type_String"

definition isNumber :: "Value \<Rightarrow> bool" where
  "isNumber v \<longleftrightarrow> isInt v \<or> isFloat v"

definition isArray :: "Value \<Rightarrow> bool" where
  "isArray v \<longleftrightarrow> (case v of VArray _ \<Rightarrow> True | _ \<Rightarrow> False)"


fun asInt :: "Value \<Rightarrow> int64" where
  "asInt (VInt i) = i"
| "asInt (VFloat d) = double_to_int64 d"
| "asInt _ = 0"

fun asFloat :: "Value \<Rightarrow> double" where
  "asFloat (VFloat d) = d"
| "asFloat (VInt i) = int64_to_double i"
| "asFloat _ = double_zero"

text \<open>
  The binary operators. Each tests the tags in the order of the source and throws when
  no test succeeds.
\<close>

definition operator_add :: "Value \<Rightarrow> Value \<Rightarrow> error + Value" where
  "operator_add a b =
     (if isInt a \<and> isInt b then Inr (VInt (asInt a + asInt b))
      else if isNumber a \<and> isNumber b then Inr (VFloat (double_add (asFloat a) (asFloat b)))
      else case (a, b) of
             (VString x, VString y) \<Rightarrow> Inr (VString (x @ y))
           | _ \<Rightarrow> Inl (runtime_error ''Cannot add these value types''))"

definition operator_mul :: "Value \<Rightarrow> Value \<Rightarrow> error + Value" where
  "operator_mul a b =
     (if isInt a \<and> isInt b then Inr (VInt (asInt a * asInt b))
      else if isNumber a \<and> isNumber b then Inr (VFloat (double_mul (asFloat a) (asFloat b)))
      else Inl (runtime_error ''Cannot multiply these value types''))"

definition operator_div :: "Value \<Rightarrow> Value \<Rightarrow> error + Value" where
  "operator_div a b =
     (if isInt a \<and> isInt b then
        (if asInt b = 0 then Inl (runtime_error ''Division by zero'')
         else case int64_div (asInt a) (asInt b) of
                None \<Rightarrow> Inl undefined_behaviour
              | Some q \<Rightarrow> Inr (VInt q))
      else if isNumber a \<and> isNumber b then
        (if double_eq (asFloat b) double_zero then Inl (runtime_error ''Division by zero'')
         else Inr (VFloat (double_div (asFloat a) (asFloat b))))
      else Inl (runtime_error ''Cannot divide these value types''))"

definition operator_mod :: "Value \<Rightarrow> Value \<Rightarrow> error + Value" where
  "operator_mod a b =
     (if isInt a \<and> isInt b then
        (if asInt b = 0 then Inl (runtime_error ''Modulo by zero'')
         else case int64_mod (asInt a) (asInt b) of
                None \<Rightarrow> Inl undefined_behaviour
              | Some r \<Rightarrow> Inr (VInt r))
      else Inl (runtime_error ''Modulo requires integer operands''))"

fun isTruthy :: "Value \<Rightarrow> bool" where
  "isTruthy VNull = False"
| "isTruthy (VBool b) = b"
| "isTruthy (VInt i) = (i \<noteq> 0)"
| "isTruthy (VFloat d) = (\<not> double_eq d double_zero)"
| "isTruthy (VString x) =
     (if x = ''true'' \<or> x = ''1'' then True
      else if x = ''false'' \<or> x = ''0'' then False
      else x \<noteq> [])"
| "isTruthy _ = False"

subsection \<open>Equality\<close>

text \<open>
  \<open>std::vector\<close>'s \<open>==\<close>: the sizes are compared first, then the elements in order up
  to the first pair that differs. \<open>eq\<close> is the comparison of two elements, which may
  not return (\<open>None\<close>).
\<close>

fun std_equal :: "('a \<Rightarrow> 'a \<Rightarrow> bool option) \<Rightarrow> 'a list \<Rightarrow> 'a list \<Rightarrow> bool option" where
  "std_equal eq (x # xs) (y # ys) =
     (case eq x y of
        None \<Rightarrow> None
      | Some False \<Rightarrow> Some False
      | Some True \<Rightarrow> std_equal eq xs ys)"
| "std_equal eq _ _ = Some True"

definition vector_eq :: "('a \<Rightarrow> 'a \<Rightarrow> bool option) \<Rightarrow> 'a list \<Rightarrow> 'a list \<Rightarrow> bool option" where
  "vector_eq eq xs ys = (if length xs \<noteq> length ys then Some False else std_equal eq xs ys)"

text \<open>
  \<open>operator==\<close>. Comparing two arrays compares their elements with \<open>operator==\<close>
  again, one call deeper. The first argument bounds the depth of these nested calls:
  the result is \<open>None\<close> when the comparison needs to go deeper than that. A comparison
  that returns \<open>None\<close> for every bound is one that does not return.
\<close>

fun operator_eq :: "nat \<Rightarrow> store \<Rightarrow> Value \<Rightarrow> Value \<Rightarrow> bool option" where
  "operator_eq depth s a b =
     (if getType a \<noteq> getType b then Some False
      else case (a, b) of
             (VNull, _) \<Rightarrow> Some True
           | (VBool x, VBool y) \<Rightarrow> Some (x = y)
           | (VInt x, VInt y) \<Rightarrow> Some (x = y)
           | (VFloat x, VFloat y) \<Rightarrow> Some (double_eq x y)
           | (VString x, VString y) \<Rightarrow> Some (x = y)
           | (VArray p, VArray q) \<Rightarrow>
               (case depth of
                  0 \<Rightarrow> None
                | Suc n \<Rightarrow> vector_eq (\<lambda>x y. operator_eq n s x y) (arrays s p) (arrays s q))
           | _ \<Rightarrow> Some False)"

declare operator_eq.simps [simp del]

subsection \<open>Rendering\<close>

text \<open>\<open>std::to_string\<close> of an \<open>int64_t\<close>: the decimal digits, after a minus sign if negative.\<close>

function digits :: "int \<Rightarrow> string" where
  "digits n =
     (if n < 10 then [''0123456789'' ! nat n]
      else digits (n div 10) @ [''0123456789'' ! nat (n mod 10)])"
  by pat_completeness auto
termination
  by (relation "measure nat") auto

declare digits.simps [simp del]

definition to_string_int64 :: "int64 \<Rightarrow> string" where
  "to_string_int64 i =
     (if sint i < 0 then CHR ''-'' # digits (- sint i) else digits (sint i))"

text \<open>
  The loop of \<open>toString\<close> over the elements of an array: each element is rendered and
  appended, followed by a separator unless it is the last one.
\<close>

fun render_elements :: "('a \<Rightarrow> string option) \<Rightarrow> 'a list \<Rightarrow> string \<Rightarrow> string option" where
  "render_elements f [] result = Some result"
| "render_elements f (x # xs) result =
     (case f x of
        None \<Rightarrow> None
      | Some t \<Rightarrow> render_elements f xs (result @ t @ (if xs \<noteq> [] then '', '' else [])))"

text \<open>
  \<open>toString\<close>. \<open>std::to_string\<close> of a double is the C library's \<open>%f\<close> rendering in the
  current locale; it is the parameter \<open>fmt\<close>. As for \<open>operator_eq\<close>, the first argument
  bounds the depth of the nested calls for arrays inside arrays.
\<close>

fun toString :: "(double \<Rightarrow> string) \<Rightarrow> nat \<Rightarrow> store \<Rightarrow> Value \<Rightarrow> string option" where
  "toString fmt depth s VNull = Some ''null''"
| "toString fmt depth s (VBool b) = Some (if b then ''true'' else ''false'')"
| "toString fmt depth s (VInt i) = Some (to_string_int64 i)"
| "toString fmt depth s (VFloat d) = Some (fmt d)"
| "toString fmt depth s (VString x) = Some x"
| "toString fmt depth s (VArray p) =
     (case depth of
        0 \<Rightarrow> None
      | Suc n \<Rightarrow>
          (case render_elements (\<lambda>x. toString fmt n s x) (arrays s p) ''['' of
             None \<Rightarrow> None
           | Some result \<Rightarrow> Some (result @ '']'')))"
| "toString fmt depth s (VStruct p) = Some ''unknown''"

subsection \<open>Records\<close>

text \<open>\<open>createStruct\<close> allocates a new instance and returns the handle to it.\<close>

definition createStruct :: "store \<Rightarrow> string \<Rightarrow> Value \<times> store" where
  "createStruct s name =
     (VStruct (used s),
      s\<lparr>structs := (structs s)(used s := \<lparr>structName = name, fields_of = Map.empty\<rparr>),
        used := Suc (used s)\<rparr>)"

definition getField :: "store \<Rightarrow> Value \<Rightarrow> string \<Rightarrow> error + Value" where
  "getField s v name =
     (case v of
        VStruct p \<Rightarrow>
          (case fields_of (structs s p) name of
             None \<Rightarrow> Inr VNull
           | Some x \<Rightarrow> Inr x)
      | _ \<Rightarrow> Inl (runtime_error ''getField() called on non-struct value''))"

text \<open>\<open>setField\<close> returns nothing; it changes the instance, so the model returns the store.\<close>

definition setField :: "store \<Rightarrow> Value \<Rightarrow> string \<Rightarrow> Value \<Rightarrow> error + store" where
  "setField s v name x =
     (case v of
        VStruct p \<Rightarrow>
          Inr (s\<lparr>structs := (structs s)(p := (structs s p)\<lparr>fields_of := (fields_of (structs s p))(name \<mapsto> x)\<rparr>)\<rparr>)
      | _ \<Rightarrow> Inl (runtime_error ''setField() called on non-struct value''))"


subsection \<open>Arrays\<close>

text \<open>\<open>createArray\<close> allocates a new instance holding the given elements.\<close>

definition createArray :: "store \<Rightarrow> Value list \<Rightarrow> Value \<times> store" where
  "createArray s elements =
     (VArray (used s), s\<lparr>arrays := (arrays s)(used s := elements), used := Suc (used s)\<rparr>)"

text \<open>
  \<open>asArray\<close> returns the handle itself, through which the caller changes the instance:
  \<open>a.asArray()->push_back(x)\<close> appends \<open>x\<close> to the array at the address of \<open>a\<close>.
\<close>

definition push_back :: "store \<Rightarrow> addr \<Rightarrow> Value \<Rightarrow> store" where
  "push_back s p x = s\<lparr>arrays := (arrays s)(p := arrays s p @ [x])\<rparr>"

subsection \<open>Error kinds\<close>

text \<open>
  The specification names kinds of errors where the code has messages. This is the
  kind each message of the operations above falls under: \<open>DivisionByZero\<close> is division
  or modulo by a zero divisor, \<open>UnsupportedOperand\<close> is arithmetic on an incompatible tag
  pairing, \<open>WrongType\<close> is an operation that requires a specific tag.
\<close>

datatype error_kind = WrongType | UnsupportedOperand | DivisionByZero

definition kind_of :: "error \<Rightarrow> error_kind option" where
  "kind_of e =
     (case e of
        runtime_error m \<Rightarrow>
          if m = ''Division by zero'' \<or> m = ''Modulo by zero'' then Some DivisionByZero
          else if m = ''Cannot add these value types'' \<or> m = ''Cannot multiply these value types''
                  \<or> m = ''Cannot divide these value types'' \<or> m = ''Modulo requires integer operands''
               then Some UnsupportedOperand
          else if m = ''getField() called on non-struct value''
                  \<or> m = ''setField() called on non-struct value''
               then Some WrongType
          else None
      | undefined_behaviour \<Rightarrow> None)"

text \<open>A result that is an error of the given kind.\<close>

definition fails_with :: "error + 'a \<Rightarrow> error_kind \<Rightarrow> bool" where
  "fails_with r k \<longleftrightarrow> (case r of Inl e \<Rightarrow> kind_of e = Some k | Inr _ \<Rightarrow> False)"

text \<open>A store in which nothing has been allocated.\<close>

definition empty_store :: store where
  "empty_store = \<lparr>structs = (\<lambda>_. \<lparr>structName = [], fields_of = Map.empty\<rparr>), arrays = (\<lambda>_. []), used = 0\<rparr>"

subsection \<open>Shapes of Values\<close>

text \<open>
  A Value that holds no Record and no NaN, neither itself nor in its elements, the
  arrays nested at most \<open>depth\<close> deep.
\<close>

fun no_record_no_nan :: "nat \<Rightarrow> store \<Rightarrow> Value \<Rightarrow> bool" where
  "no_record_no_nan depth s (VFloat d) = (\<not> is_nan d)"
| "no_record_no_nan depth s (VStruct p) = False"
| "no_record_no_nan depth s (VArray p) =
     (case depth of
        0 \<Rightarrow> False
      | Suc n \<Rightarrow> list_all (\<lambda>x. no_record_no_nan n s x) (arrays s p))"
| "no_record_no_nan depth s _ = True"

text \<open>
  A Value whose arrays are nested at most \<open>depth\<close> deep. An array that contains itself,
  directly or through its elements, is nested within no depth.
\<close>

fun nested_within :: "nat \<Rightarrow> store \<Rightarrow> Value \<Rightarrow> bool" where
  "nested_within depth s (VArray p) =
     (case depth of
        0 \<Rightarrow> False
      | Suc n \<Rightarrow> list_all (\<lambda>x. nested_within n s x) (arrays s p))"
| "nested_within depth s _ = True"

text \<open>
  The store after \<open>a = createArray(); a.asArray()->push_back(a)\<close>: \<open>a\<close> is the handle
  \<open>VArray 0\<close>, and the array at address 0 holds that handle.
\<close>

definition cyclic_store :: store where
  "cyclic_store = push_back (snd (createArray empty_store [])) 0 (fst (createArray empty_store []))"

text \<open>
  The store after creating the arrays \<open>[1, 2]\<close>, \<open>[1, 2]\<close>, \<open>[2, 1]\<close>, \<open>[]\<close> and \<open>[]\<close>, at
  the addresses 0 to 4.
\<close>

definition example_store :: store where
  "example_store =
     snd (createArray (snd (createArray (snd (createArray (snd (createArray (snd (createArray
       empty_store [VInt 1, VInt 2])) [VInt 1, VInt 2])) [VInt 2, VInt 1])) [])) [])"

text \<open>The store after \<open>createStruct("T")\<close>; the Record is the handle \<open>VStruct 0\<close>.\<close>

definition record_store :: store where
  "record_store = snd (createStruct empty_store ''T'')"

section \<open>Auxiliary facts\<close>

subsection \<open>Errors\<close>

lemma fails_with_Inl [simp]: "fails_with (Inl e) k \<longleftrightarrow> kind_of e = Some k"
  by (simp add: fails_with_def)

lemma fails_with_Inr [simp]: "\<not> fails_with (Inr x) k"
  by (simp add: fails_with_def)

subsection \<open>Division of integers\<close>

lemma sint_INT64_MIN: "sint INT64_MIN = - (2 ^ 63)"
  by (simp add: INT64_MIN_def)

lemma sint_eq_INT64_MIN_iff: "sint x = - (2 ^ 63) \<longleftrightarrow> x = INT64_MIN"
  using word_eq_iff_signed [of x INT64_MIN, where ?'a = int] by (simp add: sint_INT64_MIN)

lemma sint_eq_minus_one_iff: "sint y = - 1 \<longleftrightarrow> y = (- 1 :: int64)"
  using word_eq_iff_signed [of y "- 1", where ?'a = int] by simp

lemma sdiv_eq_trunc_rat:
  assumes "l \<noteq> 0"
  shows "k sdiv l = trunc_rat (of_int k / of_int l)"
proof -
  consider "k = 0" | "0 < k" "0 < l" | "k < 0" "0 < l" | "0 < k" "l < 0" | "k < 0" "l < 0"
    using assms by linarith
  then show ?thesis
  proof cases
    case 1
    then show ?thesis by (simp add: trunc_rat_def)
  next
    case 2
    then have "\<not> (rat_of_int k / rat_of_int l < 0)" by (simp add: divide_less_0_iff)
    with 2 show ?thesis
      by (simp add: trunc_rat_def signed_divide_int_def floor_divide_of_int_eq)
  next
    case 3
    then have neg: "rat_of_int k / rat_of_int l < 0" by (simp add: divide_less_0_iff)
    have "- (rat_of_int k / rat_of_int l) = rat_of_int (- k) / rat_of_int l" by simp
    then have "\<lfloor>- (rat_of_int k / rat_of_int l)\<rfloor> = (- k) div l"
      by (simp only: floor_divide_of_int_eq)
    with 3 neg show ?thesis
      by (simp add: trunc_rat_def signed_divide_int_def)
  next
    case 4
    then have neg: "rat_of_int k / rat_of_int l < 0" by (simp add: divide_less_0_iff)
    have "- (rat_of_int k / rat_of_int l) = rat_of_int k / rat_of_int (- l)" by simp
    then have "\<lfloor>- (rat_of_int k / rat_of_int l)\<rfloor> = k div (- l)"
      by (simp only: floor_divide_of_int_eq)
    with 4 neg show ?thesis
      by (simp add: trunc_rat_def signed_divide_int_def)
  next
    case 5
    then have pos: "\<not> (rat_of_int k / rat_of_int l < 0)" by (simp add: divide_less_0_iff)
    have "rat_of_int k / rat_of_int l = rat_of_int (- k) / rat_of_int (- l)" by simp
    then have "\<lfloor>rat_of_int k / rat_of_int l\<rfloor> = (- k) div (- l)"
      by (simp only: floor_divide_of_int_eq)
    with 5 pos show ?thesis
      by (simp add: trunc_rat_def signed_divide_int_def)
  qed
qed

lemma div_eq_bound:
  fixes a b :: int
  assumes "0 \<le> a" "a \<le> 2 ^ 63" "1 \<le> b" "a div b = 2 ^ 63"
  shows "a = 2 ^ 63 \<and> b = 1"
proof -
  have "a = b * (a div b) + a mod b" by simp
  moreover have "0 \<le> a mod b" using assms(3) by simp
  ultimately have "b * 2 ^ 63 \<le> a" using assms(4) by simp
  with assms(1-3) show ?thesis by simp
qed

lemma quotient_in_range:
  assumes "y \<noteq> 0" and "\<not> (x = INT64_MIN \<and> y = - 1)"
  shows "int64_range (sint x sdiv sint (y :: int64))"
proof -
  have rx: "- (2 ^ 63) \<le> sint x" "sint x < 2 ^ 63"
    using sint_greater_eq [of x] sint_less [of x] by simp_all
  from assms(1) have nz: "sint y \<noteq> 0" by (simp add: signed_eq_0_iff)
  have absq: "\<bar>sint x sdiv sint y\<bar> \<le> \<bar>sint x\<bar>"
    using sdiv_int_range [of "sint x" "sint y"] by auto
  have "sint x sdiv sint y \<noteq> 2 ^ 63"
  proof
    assume e: "sint x sdiv sint y = 2 ^ 63"
    with absq rx have x: "sint x = - (2 ^ 63)" by linarith
    with e have s: "- sgn (sint y) * (2 ^ 63 div \<bar>sint y\<bar>) = 2 ^ 63"
      by (simp add: signed_divide_int_def)
    show False
    proof (cases "0 < sint y")
      case True
      then have "0 \<le> (2 ^ 63 :: int) div sint y"
        by (simp add: pos_imp_zdiv_nonneg_iff)
      with True s show False by simp
    next
      case False
      with nz have neg: "sint y < 0" by simp
      with s have "(2 ^ 63 :: int) div (- sint y) = 2 ^ 63" by simp
      with neg have "- sint y = 1"
        using div_eq_bound [of "2 ^ 63" "- sint y"] by simp
      then have "sint y = - 1" by simp
      with x assms(2) show False
        by (simp only: sint_eq_INT64_MIN_iff sint_eq_minus_one_iff) simp
    qed
  qed
  with absq rx show ?thesis
    unfolding int64_range_def by linarith
qed

lemma int64_div_Some:
  assumes "y \<noteq> 0" and "\<not> (x = INT64_MIN \<and> y = - 1)"
  shows "\<exists>q. int64_div x y = Some q \<and> sint q = sint x sdiv sint y"
proof -
  from quotient_in_range [OF assms] have r: "int64_range (sint x sdiv sint y)" .
  then have "sint (word_of_int (sint x sdiv sint y) :: int64) = sint x sdiv sint y"
    by (simp add: int64_range_def signed_of_int signed_take_bit_int_eq_self)
  with r assms(1) show ?thesis by (simp add: int64_div_def)
qed

lemma int64_mod_Some:
  assumes "y \<noteq> 0" and "\<not> (x = INT64_MIN \<and> y = - 1)"
  shows "\<exists>r. int64_mod x y = Some r \<and> sint r = sint x smod sint y"
proof -
  from assms(1) have nz: "sint y \<noteq> 0" by (simp add: signed_eq_0_iff)
  have ry: "- (2 ^ 63) \<le> sint y" "sint y < 2 ^ 63"
    using sint_greater_eq [of y] sint_less [of y] by simp_all
  from smod_int_range [OF nz, of "sint x"]
  have "- \<bar>sint y\<bar> + 1 \<le> sint x smod sint y" "sint x smod sint y \<le> \<bar>sint y\<bar> - 1"
    by simp_all
  with ry have "- (2 ^ 63) \<le> sint x smod sint y" "sint x smod sint y < 2 ^ 63"
    by linarith+
  then have "sint (word_of_int (sint x smod sint y) :: int64) = sint x smod sint y"
    by (simp add: signed_of_int signed_take_bit_int_eq_self)
  with quotient_in_range [OF assms] assms(1) show ?thesis by (simp add: int64_mod_def)
qed

lemma int64_div_mult_mod:
  assumes "int64_div x y = Some q" "int64_mod x y = Some r"
  shows "q * y + r = x"
proof -
  from assms have "q * y + r = word_of_int (sint x sdiv sint y * sint y + sint x smod sint y)"
    by (auto simp: int64_div_def int64_mod_def split: if_splits)
  also have "\<dots> = x"
    by (simp add: sdiv_mult_smod_eq)
  finally show ?thesis .
qed

lemma quotient_overflow: "sint INT64_MIN sdiv sint (- 1 :: int64) = 2 ^ 63"
  by (simp add: sint_INT64_MIN)

lemma int64_div_overflow: "int64_div INT64_MIN (- 1) = None"
  by (simp add: int64_div_def int64_range_def sint_INT64_MIN)

lemma int64_mod_overflow: "int64_mod INT64_MIN (- 1) = None"
  by (simp add: int64_mod_def int64_range_def sint_INT64_MIN)

subsection \<open>Doubles\<close>

lemma double_eq_zero_iff: "double_eq d double_zero \<longleftrightarrow> is_zero d"
  by (auto simp: double_eq_def is_zero_def is_nan_def double_zero_def)

lemma is_zero_double_zero [simp]: "is_zero double_zero"
  by (simp add: is_zero_def double_zero_def)

lemma double_eq_refl_iff: "double_eq d d \<longleftrightarrow> \<not> is_nan d"
  by (simp add: double_eq_def)

lemma int64_to_double_0: "int64_to_double 0 = double_zero"
  by (simp add: int64_to_double_def round_double_def double_zero_def)

lemma double_example_add:
  "double_add (int64_to_double 1) (Double False 1024 0x4000000000000) = Double False 1024 0xC000000000000"
  by code_simp

lemma floor_rat_numeral: "\<lfloor>(numeral a :: rat) / numeral b\<rfloor> = numeral a div numeral b"
  using floor_divide_of_int_eq [of "numeral a" "numeral b", where ?'a = rat] by simp

lemma valof_example: "valof (Double True 1024 0xC000000000000) = - (7 / 2)"
  by (simp add: valof_def pow2_def)

lemma valof_pow53:
  "valof (Double False 1076 0) = 9007199254740992"
  "valof (Double True 1076 0) = - 9007199254740992"
  by (simp_all add: valof_def pow2_def)

lemma valof_pow63: "valof (Double False 1086 0) = 9223372036854775808"
  by (simp add: valof_def pow2_def)

lemma int64_to_double_pow53:
  "int64_to_double 9007199254740992 = Double False 1076 0"
  "int64_to_double (- 9007199254740992) = Double True 1076 0"
  by code_simp+

lemma int64_to_double_pow53_succ:
  "int64_to_double 9007199254740993 = Double False 1076 0"
  by code_simp

lemma double_to_int64_trunc:
  assumes "is_finite d" "- (2 ^ 63) \<le> trunc_rat (valof d)" "trunc_rat (valof d) < 2 ^ 63"
  shows "sint (double_to_int64 d) = trunc_rat (valof d)"
  using assms by (simp add: double_to_int64_def signed_of_int signed_take_bit_int_eq_self)

subsection \<open>Conversion of integers to doubles\<close>

lemma bitlen_bounds:
  "0 < n \<Longrightarrow> 1 \<le> bitlen n \<and> 2 ^ nat (bitlen n - 1) \<le> n \<and> n < 2 ^ nat (bitlen n)"
proof (induction n rule: bitlen.induct)
  case (1 n)
  show ?case
  proof (cases "n = 1")
    case True
    then show ?thesis by (simp add: bitlen.simps)
  next
    case False
    with "1.prems" have h: "0 < n div 2" by simp
    with "1.prems" "1.IH" have IH: "1 \<le> bitlen (n div 2)"
        "2 ^ nat (bitlen (n div 2) - 1) \<le> n div 2" "n div 2 < 2 ^ nat (bitlen (n div 2))"
      by simp_all
    have L: "bitlen n = 1 + bitlen (n div 2)"
      using "1.prems" by (subst bitlen.simps) simp
    from IH(1) have p: "(2::int) ^ nat (bitlen (n div 2)) = 2 * 2 ^ nat (bitlen (n div 2) - 1)"
      by (metis Suc_nat_eq_nat_zadd1 add.commute diff_add_cancel diff_ge_0_iff_ge power_Suc)
    from IH(1) have p': "(2::int) ^ nat (1 + bitlen (n div 2)) = 2 * 2 ^ nat (bitlen (n div 2))"
      by (simp add: nat_add_distrib)
    have "2 * (n div 2) \<le> n" "n < 2 * (n div 2) + 2" by simp_all
    with IH p p' L show ?thesis by simp
  qed
qed

lemma ilog2_of_int: "0 < n \<Longrightarrow> ilog2 (of_int n) = bitlen n - 1"
proof -
  assume n: "0 < n"
  have one: "bitlen 1 = 1" by (simp add: bitlen.simps)
  from bitlen_bounds [OF n] have b: "0 \<le> bitlen n - 1" "2 ^ nat (bitlen n - 1) \<le> n"
    by simp_all
  then have "rat_of_int (2 ^ nat (bitlen n - 1)) \<le> rat_of_int n"
    by (simp only: of_int_le_iff)
  with b(1) have "pow2 (bitlen n - 1) \<le> rat_of_int n" by (simp add: pow2_def)
  then show ?thesis by (simp add: ilog2_def one)
qed

lemma round_half_even_of_int: "round_half_even (of_int z) = z"
  by (simp add: round_half_even_def)

lemma pow2_minus_nat: "pow2 (- int t) = 1 / 2 ^ t"
  by (cases t) (simp_all add: pow2_def nat_add_distrib)

lemma round_double_of_int:
  assumes "0 < n" "n < 2 ^ 53"
  shows "is_finite (round_double sg (of_int n))
    \<and> valof (round_double sg (of_int n)) = (if sg then - 1 else 1) * of_int n"
proof -
  define e where "e = bitlen n - 1"
  define t where "t = nat (52 - e)"
  define m where "m = n * 2 ^ t"
  from bitlen_bounds [OF assms(1)] have e: "0 \<le> e" "2 ^ nat e \<le> n" "n < 2 ^ nat (e + 1)"
    by (simp_all add: e_def)
  have "e < 53"
  proof (rule ccontr)
    assume "\<not> e < 53"
    then have "(2::int) ^ 53 \<le> 2 ^ nat e" by (intro power_increasing) simp_all
    with e(2) assms(2) show False by simp
  qed
  with e(1) have et: "int t = 52 - e" "nat e + t = 52" "nat (e + 1) + t = 53"
    by (simp_all add: t_def)
  have "2 ^ nat e * 2 ^ t \<le> m" unfolding m_def using e(2) by (intro mult_right_mono) simp_all
  then have m_lo: "2 ^ 52 \<le> m" by (simp add: power_add [symmetric] et)
  have "m < 2 ^ nat (e + 1) * 2 ^ t" unfolding m_def using e(3) by (intro mult_strict_right_mono) simp_all
  then have m_hi: "m < 2 ^ 53" by (simp add: power_add [symmetric] et)
  have il: "max (ilog2 (of_int n)) (- 1022) = e"
    using e(1) by (simp add: ilog2_of_int [OF assms(1)] e_def)
  have "pow2 (e - 52) = 1 / 2 ^ t"
    using pow2_minus_nat [of t] et(1) by simp
  then have sc: "rat_of_int n / pow2 (e - 52) = rat_of_int m"
    by (simp add: m_def)
  define P :: int where "P = 2 ^ 52"
  have P: "0 < P" by (simp add: P_def)
  define b where "b = (e + 1022) * P + m"
  have bdiv: "b div P = e + 1023" and bmod: "b mod P = m - P"
  proof -
    define r where "r = m - P"
    have b: "b = (e + 1023) * P + r" by (simp add: b_def r_def algebra_simps)
    have r: "0 \<le> r" "r < P" using m_lo m_hi by (simp_all add: P_def r_def)
    then have "b div P = e + 1023" "b mod P = r"
      unfolding b using P by simp_all
    then show "b div P = e + 1023" "b mod P = m - P"
      by (simp_all add: r_def)
  qed
  have small: "\<not> 2047 * 2 ^ 52 \<le> b"
    using \<open>e < 53\<close> m_hi by (simp add: b_def P_def)
  define we :: "11 word" where "we = word_of_int (e + 1023)"
  define wf :: "52 word" where "wf = word_of_int (m - 2 ^ 52)"
  have rd: "round_double sg (of_int n) = Double sg we wf"
    using assms(1) small bdiv bmod
    by (simp add: round_double_def il sc round_half_even_of_int b_def P_def Let_def we_def wf_def)
  have ue: "uint we = e + 1023"
    unfolding we_def using e(1) \<open>e < 53\<close>
    by (simp only: uint_word_of_int_eq) (simp add: take_bit_int_eq_self)
  have uf: "uint wf = m - 2 ^ 52"
    unfolding wf_def using m_lo m_hi
    by (simp only: uint_word_of_int_eq) (simp add: take_bit_int_eq_self)
  have ne0: "we \<noteq> 0"
  proof
    assume "we = 0"
    then have "uint we = 0" by simp
    with ue e(1) show False by simp
  qed
  have ne2047: "we \<noteq> 2047"
  proof
    assume "we = 2047"
    then have "uint we = 2047" by simp
    with ue \<open>e < 53\<close> show False by simp
  qed
  have "pow2 (e - 52) \<noteq> 0"
    using \<open>pow2 (e - 52) = 1 / 2 ^ t\<close> by simp
  with sc have "rat_of_int m * pow2 (e - 52) = rat_of_int n"
    by (simp add: field_simps)
  then have "valof (Double sg we wf) = (if sg then - 1 else 1) * of_int n"
    by (simp add: valof_def ne0 ue uf)
  with rd ne2047 show ?thesis by (simp add: is_finite_def)
qed

lemma int64_to_double_exact:
  assumes "\<bar>sint i\<bar> \<le> 2 ^ 53"
  shows "is_finite (int64_to_double i) \<and> valof (int64_to_double i) = of_int (sint i)"
proof -
  consider "sint i = 0" | "0 < \<bar>sint i\<bar>" "\<bar>sint i\<bar> < 2 ^ 53" | "sint i = 2 ^ 53" | "sint i = - (2 ^ 53)"
    using assms by linarith
  then show ?thesis
  proof cases
    case 1
    then have "i = 0" by (simp add: signed_eq_0_iff)
    then show ?thesis
      by (simp add: int64_to_double_0 double_zero_def is_finite_def valof_def)
  next
    case 2
    have "is_finite (int64_to_double i) \<and>
        valof (int64_to_double i) = (if sint i < 0 then - 1 else 1) * rat_of_int \<bar>sint i\<bar>"
      unfolding int64_to_double_def by (rule round_double_of_int [OF 2])
    moreover have "(if sint i < 0 then - 1 else 1) * rat_of_int \<bar>sint i\<bar> = rat_of_int (sint i)"
      by (cases "sint i < 0") (simp_all del: of_int_sint)
    ultimately show ?thesis by (simp only:)
  next
    case 3
    then have "word_of_int (sint i) = (word_of_int (2 ^ 53) :: 64 word)" by simp
    then have "i = 9007199254740992" by simp
    then show ?thesis
      by (simp add: int64_to_double_pow53 valof_pow53 is_finite_def)
  next
    case 4
    then have "word_of_int (sint i) = (word_of_int (- (2 ^ 53)) :: 64 word)" by simp
    then have "i = - 9007199254740992" by simp
    then show ?thesis
      by (simp add: int64_to_double_pow53 valof_pow53 is_finite_def)
  qed
qed

lemma pow2_powi: "pow2 e = 2 powi e"
  by (simp add: pow2_def power_int_def inverse_eq_divide power_one_over)

lemma pow2_add: "pow2 (a + b) = pow2 a * pow2 b"
  by (simp add: pow2_powi power_int_add)

lemma pow2_pos: "0 < pow2 e"
  by (simp add: pow2_def)

lemma round_half_even_floor:
  "round_half_even x = \<lfloor>x\<rfloor> \<or> round_half_even x = \<lfloor>x\<rfloor> + 1"
  by (simp add: round_half_even_def Let_def)

lemma round_half_even_close: "\<bar>of_int (round_half_even x) - x\<bar> \<le> 1 / 2"
proof -
  have f: "of_int \<lfloor>x\<rfloor> \<le> x" "x < of_int \<lfloor>x\<rfloor> + 1" by linarith+
  show ?thesis
  proof (cases "x - of_int \<lfloor>x\<rfloor> < 1 / 2")
    case True
    with f show ?thesis by (simp add: round_half_even_def Let_def)
  next
    case False
    show ?thesis
    proof (cases "1 / 2 < x - of_int \<lfloor>x\<rfloor>")
      case True
      with False f show ?thesis by (simp add: round_half_even_def Let_def)
    next
      case False
      with \<open>\<not> x - of_int \<lfloor>x\<rfloor> < 1 / 2\<close> have "x - of_int \<lfloor>x\<rfloor> = 1 / 2" by simp
      then show ?thesis by (simp add: round_half_even_def Let_def)
    qed
  qed
qed

lemma round_half_even_range:
  assumes "2 ^ 52 \<le> x" "x < 2 ^ 53"
  shows "2 ^ 52 \<le> round_half_even x \<and> round_half_even x \<le> 2 ^ 53"
proof -
  from assms(1) have "2 ^ 52 \<le> \<lfloor>x\<rfloor>" by (simp add: le_floor_iff)
  moreover from assms(2) have "\<lfloor>x\<rfloor> < 2 ^ 53" by (simp add: floor_less_iff)
  ultimately show ?thesis using round_half_even_floor [of x] by auto
qed


lemma round_double_of_large_int:
  assumes "2 ^ 53 \<le> n" "n < 2 ^ 64"
  shows "is_finite (round_double sg (of_int n))
    \<and> valof (round_double sg (of_int n)) =
        (if sg then - 1 else 1) *
          of_int (round_half_even (of_int n / of_int (spacing n)) * spacing n)"
proof -
  define e where "e = bitlen n - 1"
  define t where "t = nat (e - 52)"
  define u :: int where "u = 2 ^ t"
  define m where "m = round_half_even (of_int n / of_int u)"
  from assms(1) have pos: "0 < n" by simp
  from bitlen_bounds [OF pos] have e: "0 \<le> e" "2 ^ nat e \<le> n" "n < 2 ^ nat (e + 1)"
    by (simp_all add: e_def)
  have e_lo: "53 \<le> e"
  proof (rule ccontr)
    assume "\<not> 53 \<le> e"
    with e(1) have "nat (e + 1) \<le> 53" by simp
    then have "(2::int) ^ nat (e + 1) \<le> 2 ^ 53" by (intro power_increasing) simp_all
    with e(3) assms(1) show False by simp
  qed
  have e_hi: "e < 64"
  proof (rule ccontr)
    assume "\<not> e < 64"
    then have "(2::int) ^ 64 \<le> 2 ^ nat e" by (intro power_increasing) simp_all
    with e(2) assms(2) show False by simp
  qed
  from e_lo have et: "int t = e - 52" "52 + t = nat e" "53 + t = nat (e + 1)"
    by (simp_all add: t_def)
  have u: "0 < u" by (simp add: u_def)
  have sp: "spacing n = u"
    using pos by (simp add: spacing_def u_def t_def e_def)
  have pu: "pow2 (e - 52) = of_int u"
    using e_lo by (simp add: pow2_def u_def t_def)
  have p1: "(2::int) ^ 52 * u = 2 ^ nat e"
    unfolding u_def by (simp only: power_add [symmetric] et)
  have p2: "(2::int) ^ 53 * u = 2 ^ nat (e + 1)"
    unfolding u_def by (simp only: power_add [symmetric] et)
  have "2 ^ 52 * u \<le> n" "n < 2 ^ 53 * u"
    unfolding p1 p2 by (rule e(2), rule e(3))
  then have "rat_of_int (2 ^ 52 * u) \<le> rat_of_int n" "rat_of_int n < rat_of_int (2 ^ 53 * u)"
    by (simp_all only: of_int_le_iff of_int_less_iff)
  then have x: "2 ^ 52 \<le> rat_of_int n / rat_of_int u" "rat_of_int n / rat_of_int u < 2 ^ 53"
    using u by (simp_all add: pos_le_divide_eq pos_divide_less_eq)
  from round_half_even_range [OF x] have m: "2 ^ 52 \<le> m" "m \<le> 2 ^ 53"
    by (simp_all add: m_def)
  have il: "max (ilog2 (of_int n)) (- 1022) = e"
    using e(1) by (simp add: ilog2_of_int [OF pos] e_def)
  define P :: int where "P = 2 ^ 52"
  have P: "0 < P" by (simp add: P_def)
  define b where "b = (e + 1022) * P + m"
  have "\<exists>E f. b div P = E \<and> b mod P = f \<and> 0 \<le> f \<and> f < P \<and> 1 \<le> E \<and> E < 2047
      \<and> rat_of_int (P + f) * pow2 (E - 1075) = rat_of_int m * rat_of_int u"
  proof (cases "m = 2 * P")
    case True
    have b: "b = (e + 1024) * P + 0" by (simp add: b_def True algebra_simps)
    have "b div P = e + 1024" "b mod P = 0"
      unfolding b using P by simp_all
    moreover have "pow2 (e + 1024 - 1075) = 2 * pow2 (e - 52)"
      using pow2_add [of 1 "e - 52"] by (simp add: pow2_def)
    then have "rat_of_int (P + 0) * pow2 (e + 1024 - 1075) = rat_of_int m * rat_of_int u"
      by (simp add: True pu)
    ultimately show ?thesis using P e_lo e_hi by (intro exI [of _ "e + 1024"] exI [of _ 0]) simp
  next
    case False
    with m have lt: "m < 2 * P" by (simp add: P_def)
    define r where "r = m - P"
    have b: "b = (e + 1023) * P + r" by (simp add: b_def r_def algebra_simps)
    have r: "0 \<le> r" "r < P" using m(1) lt by (simp_all add: P_def r_def)
    then have "b div P = e + 1023" "b mod P = r"
      unfolding b using P by simp_all
    moreover have "rat_of_int (P + r) * pow2 (e + 1023 - 1075) = rat_of_int m * rat_of_int u"
      by (simp add: r_def pu)
    ultimately show ?thesis using r e_lo e_hi
      by (intro exI [of _ "e + 1023"] exI [of _ r]) simp
  qed
  then obtain E f where Ef: "b div P = E" "b mod P = f" "0 \<le> f" "f < P" "1 \<le> E" "E < 2047"
      "rat_of_int (P + f) * pow2 (E - 1075) = rat_of_int m * rat_of_int u"
    by blast
  have small: "\<not> 2047 * P \<le> b"
  proof
    assume "2047 * P \<le> b"
    then have "2047 * P div P \<le> b div P" by (rule zdiv_mono1) (rule P)
    with P Ef(1,6) show False by simp
  qed
  define we :: "11 word" where "we = word_of_int E"
  define wf :: "52 word" where "wf = word_of_int f"
  have rd: "round_double sg (of_int n) = Double sg we wf"
    using pos small Ef(1,2)
    by (simp add: round_double_def il pu m_def b_def P_def Let_def we_def wf_def)
  have ue: "uint we = E"
    unfolding we_def using Ef(5,6)
    by (simp only: uint_word_of_int_eq) (simp add: take_bit_int_eq_self)
  have uf: "uint wf = f"
    unfolding wf_def using Ef(3,4)
    by (simp only: uint_word_of_int_eq) (simp add: take_bit_int_eq_self P_def)
  have ne0: "we \<noteq> 0"
  proof
    assume "we = 0"
    then have "uint we = 0" by simp
    with ue Ef(5) show False by simp
  qed
  have ne2047: "we \<noteq> 2047"
  proof
    assume "we = 2047"
    then have "uint we = 2047" by simp
    with ue Ef(6) show False by simp
  qed
  have "valof (Double sg we wf) = (if sg then - 1 else 1) * (rat_of_int (P + f) * pow2 (E - 1075))"
    by (simp add: valof_def ne0 ue uf P_def)
  with Ef(7) have "valof (Double sg we wf) = (if sg then - 1 else 1) * rat_of_int (m * u)"
    by simp
  with rd ne2047 show ?thesis by (simp add: is_finite_def sp m_def)
qed


lemma spacing_pos: "0 < spacing k"
  by (simp add: spacing_def)

lemma spacing_small: "\<bar>k\<bar> < 2 ^ 53 \<Longrightarrow> spacing k = 1"
proof -
  assume k: "\<bar>k\<bar> < 2 ^ 53"
  have "bitlen \<bar>k\<bar> \<le> 53"
  proof (cases "k = 0")
    case True
    then show ?thesis by (simp add: bitlen.simps)
  next
    case False
    then have "0 < \<bar>k\<bar>" by simp
    from bitlen_bounds [OF this] have b: "1 \<le> bitlen \<bar>k\<bar>" "2 ^ nat (bitlen \<bar>k\<bar> - 1) \<le> \<bar>k\<bar>"
      by simp_all
    show ?thesis
    proof (rule ccontr)
      assume "\<not> bitlen \<bar>k\<bar> \<le> 53"
      then have "(2::int) ^ 53 \<le> 2 ^ nat (bitlen \<bar>k\<bar> - 1)" by (intro power_increasing) simp_all
      with b(2) k show False by simp
    qed
  qed
  then show ?thesis by (simp add: spacing_def)
qed

lemma spacing_bounds:
  "(\<exists>t. spacing k = 2 ^ t) \<and> \<bar>k\<bar> < 2 ^ 53 * spacing k
     \<and> (spacing k = 1 \<or> 2 ^ 52 * spacing k \<le> \<bar>k\<bar>)"
proof (cases "\<bar>k\<bar> < 2 ^ 53")
  case True
  then have "spacing k = 1" by (rule spacing_small)
  moreover have "(1::int) = 2 ^ 0" by simp
  ultimately show ?thesis using True by (metis mult.right_neutral)
next
  case False
  then have pos: "0 < \<bar>k\<bar>" by simp
  define L where "L = bitlen \<bar>k\<bar>"
  from bitlen_bounds [OF pos] have b: "2 ^ nat (L - 1) \<le> \<bar>k\<bar>" "\<bar>k\<bar> < 2 ^ nat L"
    by (simp_all add: L_def)
  have L: "54 \<le> L"
  proof (rule ccontr)
    assume "\<not> 54 \<le> L"
    then have "(2::int) ^ nat L \<le> 2 ^ 53" by (intro power_increasing) simp_all
    with b(2) False show False by simp
  qed
  then have t: "53 + nat (L - 53) = nat L" "52 + nat (L - 53) = nat (L - 1)" by simp_all
  have p1: "(2::int) ^ 53 * 2 ^ nat (L - 53) = 2 ^ nat L"
    by (simp only: power_add [symmetric] t)
  have p2: "(2::int) ^ 52 * 2 ^ nat (L - 53) = 2 ^ nat (L - 1)"
    by (simp only: power_add [symmetric] t)
  have "\<bar>k\<bar> < 2 ^ 53 * spacing k" "2 ^ 52 * spacing k \<le> \<bar>k\<bar>"
    unfolding spacing_def L_def [symmetric] p1 p2 by (rule b(2), rule b(1))
  then show ?thesis by (auto simp: spacing_def)
qed

lemma int64_to_double_valof:
  "is_finite (int64_to_double i)
   \<and> valof (int64_to_double i) =
       of_int (sgn (sint i) *
         (round_half_even (of_int \<bar>sint i\<bar> / of_int (spacing (sint i))) * spacing (sint i)))"
proof -
  define k where "k = sint i"
  have range: "\<bar>k\<bar> < 2 ^ 64"
    using sint_greater_eq [of i] sint_less [of i] by (simp add: k_def)
  have sp: "spacing \<bar>k\<bar> = spacing k" by (simp add: spacing_def)
  consider "\<bar>k\<bar> \<le> 2 ^ 53" "\<bar>k\<bar> < 2 ^ 53" | "2 ^ 53 \<le> \<bar>k\<bar>"
    by linarith
  then have "is_finite (int64_to_double i)
    \<and> valof (int64_to_double i) =
        rat_of_int (sgn k * (round_half_even (rat_of_int \<bar>k\<bar> / rat_of_int (spacing k)) * spacing k))"
  proof cases
    case 1
    from int64_to_double_exact [of i] 1(1)
    have "is_finite (int64_to_double i)" "valof (int64_to_double i) = rat_of_int k"
      by (simp_all add: k_def del: of_int_sint)
    moreover have "sgn k * (round_half_even (rat_of_int \<bar>k\<bar> / rat_of_int (spacing k)) * spacing k) = k"
    proof -
      have "rat_of_int \<bar>k\<bar> / rat_of_int (spacing k) = rat_of_int \<bar>k\<bar>"
        by (simp add: spacing_small [OF 1(2)])
      then have "round_half_even (rat_of_int \<bar>k\<bar> / rat_of_int (spacing k)) = \<bar>k\<bar>"
        by (simp only: round_half_even_of_int)
      then show ?thesis
        by (simp only: spacing_small [OF 1(2)] mult_1_right sgn_mult_abs)
    qed
    ultimately show ?thesis by (simp only:)
  next
    case 2
    then have nz: "k \<noteq> 0" by auto
    from round_double_of_large_int [OF 2 range, of "k < 0"]
    have "is_finite (int64_to_double i)"
      "valof (int64_to_double i) = (if k < 0 then - 1 else 1) *
          rat_of_int (round_half_even (rat_of_int \<bar>k\<bar> / rat_of_int (spacing k)) * spacing k)"
      unfolding int64_to_double_def k_def [symmetric] sp by simp_all
    moreover have "(if k < 0 then - 1 else 1) = rat_of_int (sgn k)"
      using nz by (simp add: sgn_if)
    ultimately show ?thesis by (simp only: of_int_mult)
  qed
  then show ?thesis by (simp only: k_def)
qed

lemma int64_to_double_nearest:
  "\<bar>valof (int64_to_double i) - of_int (sint i)\<bar> \<le> of_int (spacing (sint i)) / 2"
proof -
  define k where "k = sint i"
  define s where "s = spacing k"
  define m where "m = round_half_even (rat_of_int \<bar>k\<bar> / rat_of_int s)"
  have s: "0 < rat_of_int s" by (simp add: s_def spacing_pos)
  have v: "valof (int64_to_double i) = rat_of_int (sgn k) * (rat_of_int m * rat_of_int s)"
    using int64_to_double_valof [of i] by (simp only: k_def s_def m_def of_int_mult)
  have k: "rat_of_int k = rat_of_int (sgn k) * rat_of_int \<bar>k\<bar>"
    by (simp only: of_int_mult [symmetric] sgn_mult_abs)
  have "valof (int64_to_double i) - rat_of_int k =
      rat_of_int (sgn k) * (rat_of_int s * (rat_of_int m - rat_of_int \<bar>k\<bar> / rat_of_int s))"
    using s by (subst k) (simp add: v field_simps)
  then have "\<bar>valof (int64_to_double i) - rat_of_int k\<bar> =
      \<bar>rat_of_int (sgn k)\<bar> * (rat_of_int s * \<bar>rat_of_int m - rat_of_int \<bar>k\<bar> / rat_of_int s\<bar>)"
    using s by (simp only: abs_mult)
  also have "\<dots> \<le> 1 * (rat_of_int s * (1 / 2))"
  proof (intro mult_mono)
    show "\<bar>rat_of_int (sgn k)\<bar> \<le> 1" by (simp add: sgn_if)
    show "\<bar>rat_of_int m - rat_of_int \<bar>k\<bar> / rat_of_int s\<bar> \<le> 1 / 2"
      unfolding m_def by (rule round_half_even_close)
  qed (use s in simp_all)
  finally show ?thesis by (simp add: k_def s_def)
qed

lemma int64_to_double_exact_iff:
  "valof (int64_to_double i) = of_int (sint i) \<longleftrightarrow> spacing (sint i) dvd sint i"
proof -
  define k where "k = sint i"
  define s where "s = spacing k"
  define m where "m = round_half_even (rat_of_int \<bar>k\<bar> / rat_of_int s)"
  have s: "0 < s" by (simp add: s_def spacing_pos)
  have v: "valof (int64_to_double i) = rat_of_int (sgn k * (m * s))"
    using int64_to_double_valof [of i] by (simp only: k_def s_def m_def)
  have "valof (int64_to_double i) = rat_of_int k \<longleftrightarrow> s dvd k"
  proof
    assume "valof (int64_to_double i) = rat_of_int k"
    with v have "rat_of_int (sgn k * (m * s)) = rat_of_int k" by simp
    then have "sgn k * (m * s) = k" by (simp only: of_int_eq_iff)
    then have "k = s * (sgn k * m)" by (simp add: ac_simps)
    then show "s dvd k" by (rule dvdI)
  next
    assume "s dvd k"
    then have "s dvd \<bar>k\<bar>" by simp
    then obtain j where j: "\<bar>k\<bar> = s * j" by (rule dvdE)
    with s have "rat_of_int \<bar>k\<bar> / rat_of_int s = rat_of_int j" by simp
    then have "m = j" by (simp add: m_def round_half_even_of_int)
    with j have "sgn k * (m * s) = sgn k * \<bar>k\<bar>" by (simp add: ac_simps)
    then have "sgn k * (m * s) = k" by (simp only: sgn_mult_abs)
    with v show "valof (int64_to_double i) = rat_of_int k" by simp
  qed
  then show ?thesis by (simp only: k_def s_def)
qed

lemma int64_to_double_examples:
  "int64_to_double 9007199254740994 = Double False 1076 1"
  "int64_to_double 9007199254740995 = Double False 1076 2"
  "int64_to_double INT64_MIN = Double True 1086 0"
  by code_simp+

lemma valof_examples:
  "valof (Double False 1076 1) = 9007199254740994"
  "valof (Double False 1076 2) = 9007199254740996"
  "valof (Double True 1086 0) = - 9223372036854775808"
  by (simp_all add: valof_def pow2_def)

lemma spacing_examples:
  "spacing 9007199254740994 = 2"
  "spacing 9007199254740995 = 2"
  "spacing (- 9223372036854775808) = 2048"
  by code_simp+

subsection \<open>Comparison of arrays\<close>

lemma std_equal_True_iff:
  "length xs = length ys \<Longrightarrow>
     std_equal eq xs ys = Some True \<longleftrightarrow> (\<forall>i<length xs. eq (xs ! i) (ys ! i) = Some True)"
proof (induction xs ys rule: list_induct2)
  case Nil
  then show ?case by simp
next
  case (Cons x xs y ys)
  then show ?case
    by (auto simp: All_less_Suc2 split: option.splits bool.splits)
qed

lemma std_equal_returns:
  "\<forall>x\<in>set xs. \<forall>y. \<exists>r. eq x y = Some r \<Longrightarrow> \<exists>r. std_equal eq xs ys = Some r"
proof (induction xs arbitrary: ys)
  case Nil
  then show ?case by auto
next
  case (Cons x xs)
  show ?case
  proof (cases ys)
    case Nil
    then show ?thesis by auto
  next
    case (Cons y ys')
    from Cons.prems have "\<forall>y. \<exists>r. eq x y = Some r" by simp
    then obtain r where r: "eq x y = Some r" by blast
    from Cons.prems have "\<exists>r. std_equal eq xs ys' = Some r"
      by (intro Cons.IH) simp
    with r Cons show ?thesis by (cases r) auto
  qed
qed

lemma std_equal_mono:
  assumes "\<And>x y r. eq x y = Some r \<Longrightarrow> eq' x y = Some r"
  shows "std_equal eq xs ys = Some r \<Longrightarrow> std_equal eq' xs ys = Some r"
proof (induction xs arbitrary: ys)
  case Nil
  then show ?case by simp
next
  case (Cons x xs)
  show ?case
  proof (cases ys)
    case Nil
    with Cons.prems show ?thesis by simp
  next
    case (Cons y ys')
    with Cons.prems obtain t where t: "eq x y = Some t"
      by (auto split: option.splits)
    then have t': "eq' x y = Some t" by (rule assms)
    show ?thesis
    proof (cases t)
      case True
      with t t' Cons Cons.prems Cons.IH [of ys'] show ?thesis by simp
    next
      case False
      with t t' Cons Cons.prems show ?thesis by simp
    qed
  qed
qed

lemma operator_eq_returns:
  "nested_within n s a \<Longrightarrow> \<exists>r. operator_eq n s a b = Some r"
proof (induction n arbitrary: a b)
  case 0
  then show ?case
    by (cases a; cases b) (auto simp: operator_eq.simps)
next
  case (Suc n)
  show ?case
  proof (cases a)
    case (VArray p)
    with Suc.prems have el: "\<forall>x\<in>set (arrays s p). nested_within n s x"
      by (simp add: list_all_iff)
    show ?thesis
    proof (cases b)
      case (VArray q)
      from el Suc.IH have "\<forall>x\<in>set (arrays s p). \<forall>y. \<exists>r. operator_eq n s x y = Some r"
        by blast
      then have "\<exists>r. std_equal (operator_eq n s) (arrays s p) (arrays s q) = Some r"
        by (rule std_equal_returns)
      with \<open>a = VArray p\<close> VArray show ?thesis
        by (auto simp: operator_eq.simps vector_eq_def)
    qed (auto simp: \<open>a = VArray p\<close> operator_eq.simps)
  qed (cases b; auto simp: operator_eq.simps)+
qed

lemma operator_eq_mono:
  "operator_eq n s a b = Some r \<Longrightarrow> n \<le> m \<Longrightarrow> operator_eq m s a b = Some r"
proof (induction n arbitrary: m a b r)
  case 0
  then show ?case
    by (cases a; cases b) (simp_all add: operator_eq.simps)
next
  case (Suc n)
  from Suc.prems(2) obtain m' where m: "m = Suc m'" and le: "n \<le> m'"
    by (cases m) auto
  show ?case
  proof (cases "\<exists>p q. a = VArray p \<and> b = VArray q")
    case True
    then obtain p q where ab: "a = VArray p" "b = VArray q" by blast
    with Suc.prems(1) have "vector_eq (operator_eq n s) (arrays s p) (arrays s q) = Some r"
      by (simp add: operator_eq.simps)
    then have "vector_eq (operator_eq m' s) (arrays s p) (arrays s q) = Some r"
      using std_equal_mono [of "operator_eq n s" "operator_eq m' s", OF Suc.IH [OF _ le]]
      by (auto simp: vector_eq_def split: if_splits)
    with ab m show ?thesis by (simp add: operator_eq.simps)
  next
    case False
    with Suc.prems(1) show ?thesis
      by (cases a; cases b) (simp_all add: operator_eq.simps)
  qed
qed

lemma cyclic_store_arrays: "arrays cyclic_store 0 = [VArray 0]"
  by (simp add: cyclic_store_def push_back_def createArray_def empty_store_def)

lemma operator_eq_cyclic: "operator_eq depth cyclic_store (VArray 0) (VArray 0) = None"
  by (induction depth) (simp_all add: operator_eq.simps vector_eq_def cyclic_store_arrays)

lemma operator_eq_refl_iff:
  "operator_eq n s v v = Some True \<longleftrightarrow> no_record_no_nan n s v"
proof (induction n arbitrary: v)
  case 0
  then show ?case
    by (cases v) (simp_all add: operator_eq.simps double_eq_refl_iff)
next
  case (Suc n)
  show ?case
  proof (cases v)
    case (VArray p)
    have "std_equal (operator_eq n s) (arrays s p) (arrays s p) = Some True \<longleftrightarrow>
            (\<forall>i<length (arrays s p). no_record_no_nan n s (arrays s p ! i))"
      by (simp add: std_equal_True_iff Suc.IH)
    with VArray show ?thesis
      by (simp add: operator_eq.simps vector_eq_def list_all_length)
  qed (simp_all add: operator_eq.simps double_eq_refl_iff)
qed

section \<open>The claims\<close>

subsection \<open>Equality is reflexive (C1)\<close>

text \<open>
  Claim C1, as stated, fails: a Record does not equal itself. The Record that
  \<open>createStruct\<close> returns, compared with itself, has the same tag and is no Null, Bool,
  Int, Float, String or Array, so the comparison ends at the final \<open>return false\<close>.
\<close>

theorem record_equality_counterexample:
  "fst (createStruct empty_store ''T'') = VStruct 0
   \<and> operator_eq 0 record_store (VStruct 0) (VStruct 0) = Some False"
  by (simp add: operator_eq.simps createStruct_def empty_store_def)

text \<open>
  Claim C1, amended. \<open>v == v\<close> is true exactly for the Values that hold no Record and no
  NaN (the arrays nested within the depth of calls allowed). A Record compared with a
  Record is not equal, whether the handles are the same or not.
\<close>

theorem equality_reflexive:
  "(no_record_no_nan n s v \<longrightarrow> operator_eq n s v v = Some True)
   \<and> (operator_eq n s v v = Some True \<longrightarrow> no_record_no_nan n s v)
   \<and> operator_eq n s (VStruct p) (VStruct q) = Some False"
  by (simp add: operator_eq_refl_iff) (simp add: operator_eq.simps)

theorem equality_reflexive_witness:
  "no_record_no_nan 1 example_store (VArray 0)
   \<and> operator_eq 1 example_store (VArray 0) (VArray 0) = Some True
   \<and> operator_eq 1 example_store (VInt 1) (VInt 1) = Some True
   \<and> operator_eq 0 example_store (VFloat double_nan) (VFloat double_nan) = Some False"
  using equality_reflexive [of 1 example_store "VArray 0"] equality_reflexive [of 1 example_store "VInt 1"]
  by (simp add: example_store_def createArray_def empty_store_def operator_eq.simps double_eq_def
      is_nan_def double_nan_def)

subsection \<open>Record operations (C2)\<close>




subsection \<open>Division (C3)\<close>

text \<open>
  Claim C3, as stated, fails: division of two Ints with a non-zero divisor does not always
  yield an Int. \<open>INT64_MIN / -1\<close> passes the test for a zero divisor and reaches the
  built-in \<open>/\<close>, which is undefined there: the quotient truncated toward zero is
  \<open>2\<^sup>6\<^sup>3\<close>, and no \<open>int64_t\<close> has that value.
\<close>

theorem division_overflow_counterexample:
  "(- 1 :: int64) \<noteq> 0
   \<and> operator_div (VInt INT64_MIN) (VInt (- 1)) = Inl undefined_behaviour
   \<and> \<not> (\<exists>q :: int64.
          sint q = trunc_rat (of_int (sint INT64_MIN) / of_int (sint (- 1 :: int64))))"
proof -
  have "trunc_rat (of_int (sint INT64_MIN) / of_int (sint (- 1 :: int64))) = 2 ^ 63"
    using sdiv_eq_trunc_rat [of "sint (- 1 :: int64)" "sint INT64_MIN"] quotient_overflow
    by simp
  moreover have "sint q \<noteq> 2 ^ 63" for q :: int64
    using sint_less [of q] by simp
  ultimately show ?thesis
    by (simp add: operator_div_def isInt_def int64_div_overflow)
qed

text \<open>
  Claim C3, amended. Division of two Ints with a non-zero divisor, other than
  \<open>INT64_MIN / -1\<close>, is an Int: the quotient truncated toward zero; with a zero Int
  divisor it fails with \<open>DivisionByZero\<close>. Two numbers that are not both Int are divided
  as doubles, unless the divisor converted to double equals \<open>0.0\<close>, which fails with
  \<open>DivisionByZero\<close>. Operands that are not both numbers fail with \<open>UnsupportedOperand\<close>.
  With an Int 0 or a Float zero as divisor, the division fails whatever the dividend is:
  it has no result, so no infinity and no NaN.
\<close>

theorem operator_div_cases:
  "(isInt a \<and> isInt b \<and> asInt b \<noteq> 0 \<and> \<not> (asInt a = INT64_MIN \<and> asInt b = - 1) \<longrightarrow>
      (\<exists>q. operator_div a b = Inr (VInt q)
           \<and> sint q = trunc_rat (of_int (sint (asInt a)) / of_int (sint (asInt b)))))
   \<and> (isInt a \<and> isInt b \<and> asInt b = 0 \<longrightarrow> fails_with (operator_div a b) DivisionByZero)
   \<and> (isNumber a \<and> isNumber b \<and> \<not> (isInt a \<and> isInt b) \<and> \<not> double_eq (asFloat b) double_zero \<longrightarrow>
      operator_div a b = Inr (VFloat (double_div (asFloat a) (asFloat b))))
   \<and> (isNumber a \<and> isNumber b \<and> \<not> (isInt a \<and> isInt b) \<and> double_eq (asFloat b) double_zero \<longrightarrow>
      fails_with (operator_div a b) DivisionByZero)
   \<and> (\<not> (isNumber a \<and> isNumber b) \<longrightarrow> fails_with (operator_div a b) UnsupportedOperand)
   \<and> (b = VInt 0 \<or> (\<exists>d. b = VFloat d \<and> is_zero d) \<longrightarrow> (\<exists>e. operator_div a b = Inl e))"
proof -
  let ?q = "trunc_rat (of_int (sint (asInt a)) / of_int (sint (asInt b)))"
  have c1: "\<exists>q. operator_div a b = Inr (VInt q) \<and> sint q = ?q"
    if "isInt a \<and> isInt b \<and> asInt b \<noteq> 0 \<and> \<not> (asInt a = INT64_MIN \<and> asInt b = - 1)"
  proof -
    from that have nz: "sint (asInt b) \<noteq> 0" by (simp add: signed_eq_0_iff)
    from that int64_div_Some [of "asInt b" "asInt a"]
    obtain q where q: "int64_div (asInt a) (asInt b) = Some q"
        "sint q = sint (asInt a) sdiv sint (asInt b)"
      by blast
    from q(2) sdiv_eq_trunc_rat [OF nz, of "sint (asInt a)"] have "sint q = ?q"
      by (simp only:)
    with that q(1) show ?thesis by (simp add: operator_div_def del: of_int_sint)
  qed
  have c3: "isInt a \<and> isInt b \<and> asInt b = 0 \<longrightarrow> fails_with (operator_div a b) DivisionByZero"
    by (simp add: operator_div_def kind_of_def)
  have c4: "isNumber a \<and> isNumber b \<and> \<not> (isInt a \<and> isInt b)
        \<and> \<not> double_eq (asFloat b) double_zero \<longrightarrow>
      operator_div a b = Inr (VFloat (double_div (asFloat a) (asFloat b)))"
    by (simp add: operator_div_def)
  have c5: "isNumber a \<and> isNumber b \<and> \<not> (isInt a \<and> isInt b)
        \<and> double_eq (asFloat b) double_zero \<longrightarrow>
      fails_with (operator_div a b) DivisionByZero"
    by (simp add: operator_div_def kind_of_def)
  have c6: "\<not> (isNumber a \<and> isNumber b) \<longrightarrow> fails_with (operator_div a b) UnsupportedOperand"
    by (auto simp: operator_div_def kind_of_def isNumber_def)
  have c7: "b = VInt 0 \<or> (\<exists>d. b = VFloat d \<and> is_zero d) \<longrightarrow> (\<exists>e. operator_div a b = Inl e)"
    by (cases a)
      (auto simp: operator_div_def isNumber_def isInt_def isFloat_def int64_to_double_0
        double_eq_zero_iff)
  from c1 c3 c4 c5 c6 c7 show ?thesis by blast
qed

theorem operator_div_cases_witness:
  "operator_div (VInt (- 7)) (VInt 2) = Inr (VInt (- 3))
   \<and> operator_div (VInt INT64_MIN) (VInt 2) = Inr (VInt (- 4611686018427387904))
   \<and> fails_with (operator_div (VInt 7) (VInt 0)) DivisionByZero
   \<and> fails_with (operator_div (VFloat (Double False 1023 0)) (VFloat (Double True 0 0))) DivisionByZero
   \<and> fails_with (operator_div (VFloat (Double False 1023 0)) (VInt 0)) DivisionByZero
   \<and> fails_with (operator_div (VInt 7) (VFloat double_zero)) DivisionByZero
   \<and> operator_div (VFloat (Double False 1023 0)) (VFloat (Double False 1024 0)) =
        Inr (VFloat (double_div (Double False 1023 0) (Double False 1024 0)))
   \<and> fails_with (operator_div (VString ''a'') (VInt 0)) UnsupportedOperand
   \<and> fails_with (operator_div (VInt 1) (VBool True)) UnsupportedOperand"
  using operator_div_cases [of "VInt (- 7)" "VInt 2"]
    operator_div_cases [of "VInt INT64_MIN" "VInt 2"]
    operator_div_cases [of "VInt 7" "VInt 0"]
    operator_div_cases [of "VFloat (Double False 1023 0)" "VFloat (Double True 0 0)"]
    operator_div_cases [of "VFloat (Double False 1023 0)" "VInt 0"]
    operator_div_cases [of "VInt 7" "VFloat double_zero"]
    operator_div_cases [of "VFloat (Double False 1023 0)" "VFloat (Double False 1024 0)"]
    operator_div_cases [of "VString ''a''" "VInt 0"]
    operator_div_cases [of "VInt 1" "VBool True"]
  by (simp add: isNumber_def isInt_def isFloat_def int64_to_double_0 double_eq_def is_nan_def
      is_zero_def double_zero_def operator_div_def int64_div_def int64_range_def INT64_MIN_def)

subsection \<open>Division and modulo agree (C4)\<close>

text \<open>
  Claim C4, as stated, fails for \<open>a = INT64_MIN\<close> and \<open>b = -1\<close>: neither \<open>a / b\<close> nor
  \<open>a % b\<close> returns a Value, so there is nothing for \<open>(a / b) * b + a % b\<close> to be.
\<close>

theorem div_mod_overflow_counterexample:
  "(- 1 :: int64) \<noteq> 0
   \<and> \<not> (\<exists>q r p t.
          operator_div (VInt INT64_MIN) (VInt (- 1)) = Inr q
          \<and> operator_mod (VInt INT64_MIN) (VInt (- 1)) = Inr r
          \<and> operator_mul q (VInt (- 1)) = Inr p
          \<and> operator_add p r = Inr t
          \<and> operator_eq 0 empty_store t (VInt INT64_MIN) = Some True)"
  by (simp add: operator_div_def isInt_def int64_div_overflow)

text \<open>
  Claim C4, amended. For Ints \<open>x\<close> and \<open>y \<noteq> 0\<close>, other than \<open>x = INT64_MIN\<close> with
  \<open>y = -1\<close>, the operators compute \<open>x / y\<close>, \<open>x % y\<close>, \<open>(x / y) * y\<close> and
  \<open>(x / y) * y + x % y\<close> without failing, all of them Ints, the first two the quotient
  and the remainder of the truncating division, and the last one is the Int \<open>x\<close>: \<open>==\<close>
  with \<open>x\<close> is true.
\<close>

theorem div_mod_consistency:
  "y \<noteq> 0 \<Longrightarrow> \<not> (x = INT64_MIN \<and> y = - 1) \<Longrightarrow>
     \<exists>q r. operator_div (VInt x) (VInt y) = Inr (VInt q)
       \<and> operator_mod (VInt x) (VInt y) = Inr (VInt r)
       \<and> sint q = sint x sdiv sint y
       \<and> sint r = sint x smod sint y
       \<and> operator_mul (VInt q) (VInt y) = Inr (VInt (q * y))
       \<and> operator_add (VInt (q * y)) (VInt r) = Inr (VInt x)
       \<and> operator_eq depth s (VInt (q * y + r)) (VInt x) = Some True"
proof -
  assume y: "y \<noteq> 0" and xy: "\<not> (x = INT64_MIN \<and> y = - 1)"
  from int64_div_Some [OF y xy] obtain q
    where q: "int64_div x y = Some q" and sq: "sint q = sint x sdiv sint y" by blast
  from int64_mod_Some [OF y xy] obtain r
    where r: "int64_mod x y = Some r" and sr: "sint r = sint x smod sint y" by blast
  from int64_div_mult_mod [OF q r] have "q * y + r = x" .
  with y q r sq sr show ?thesis
    by (simp add: operator_div_def operator_mod_def operator_mul_def operator_add_def
        operator_eq.simps isInt_def)
qed

theorem div_mod_consistency_witness:
  "(2 :: int64) \<noteq> 0
   \<and> \<not> (- 7 = INT64_MIN \<and> (2 :: int64) = - 1)
   \<and> operator_div (VInt (- 7)) (VInt 2) = Inr (VInt (- 3))
   \<and> operator_mod (VInt (- 7)) (VInt 2) = Inr (VInt (- 1))
   \<and> operator_mul (VInt (- 3)) (VInt 2) = Inr (VInt (- 6))
   \<and> operator_add (VInt (- 6)) (VInt (- 1)) = Inr (VInt (- 7))
   \<and> operator_eq 0 empty_store (VInt (- 7)) (VInt (- 7)) = Some True"
  using div_mod_consistency [of 2 "- 7" 0 empty_store]
  by (simp add: operator_div_def operator_mod_def operator_mul_def operator_add_def isInt_def
      int64_div_def int64_mod_def int64_range_def INT64_MIN_def operator_eq.simps)

subsection \<open>Modulo (C5)\<close>

text \<open>
  Claim C5, as stated, fails: modulo of two Ints with a non-zero divisor does not always
  yield an Int. \<open>INT64_MIN % -1\<close> passes the test for a zero divisor and reaches the
  built-in \<open>%\<close>, which is undefined where the quotient does not fit.
\<close>

theorem modulo_overflow_counterexample:
  "(- 1 :: int64) \<noteq> 0
   \<and> operator_mod (VInt INT64_MIN) (VInt (- 1)) = Inl undefined_behaviour
   \<and> \<not> (\<exists>r. operator_mod (VInt INT64_MIN) (VInt (- 1)) = Inr (VInt r))"
  by (simp add: operator_mod_def isInt_def int64_mod_overflow)

text \<open>
  Claim C5, amended. Modulo of two Ints with a non-zero divisor, other than
  \<open>INT64_MIN % -1\<close>, is an Int, the remainder of the truncating division; with a zero Int
  divisor it fails with \<open>DivisionByZero\<close>; when either operand is not an Int (a Float as
  well) it fails with \<open>UnsupportedOperand\<close>.
\<close>

theorem operator_mod_cases:
  "(isInt a \<and> isInt b \<and> asInt b \<noteq> 0 \<and> \<not> (asInt a = INT64_MIN \<and> asInt b = - 1) \<longrightarrow>
      (\<exists>r. operator_mod a b = Inr (VInt r) \<and> sint r = sint (asInt a) smod sint (asInt b)))
   \<and> (isInt a \<and> isInt b \<and> asInt b = 0 \<longrightarrow> fails_with (operator_mod a b) DivisionByZero)
   \<and> (\<not> (isInt a \<and> isInt b) \<longrightarrow> fails_with (operator_mod a b) UnsupportedOperand)"
proof -
  have c1: "\<exists>r. operator_mod a b = Inr (VInt r) \<and> sint r = sint (asInt a) smod sint (asInt b)"
    if "isInt a \<and> isInt b \<and> asInt b \<noteq> 0 \<and> \<not> (asInt a = INT64_MIN \<and> asInt b = - 1)"
    using that int64_mod_Some [of "asInt b" "asInt a"]
    by (auto simp: operator_mod_def)
  have c2: "isInt a \<and> isInt b \<and> asInt b = 0 \<longrightarrow> fails_with (operator_mod a b) DivisionByZero"
    by (simp add: operator_mod_def kind_of_def)
  have c3: "\<not> (isInt a \<and> isInt b) \<longrightarrow> fails_with (operator_mod a b) UnsupportedOperand"
    by (auto simp: operator_mod_def kind_of_def)
  from c1 c2 c3 show ?thesis by blast
qed

theorem operator_mod_cases_witness:
  "operator_mod (VInt (- 7)) (VInt 2) = Inr (VInt (- 1))
   \<and> operator_mod (VInt INT64_MIN) (VInt 2) = Inr (VInt 0)
   \<and> fails_with (operator_mod (VInt 7) (VInt 0)) DivisionByZero
   \<and> fails_with (operator_mod (VFloat double_zero) (VInt 2)) UnsupportedOperand
   \<and> fails_with (operator_mod (VInt 7) (VFloat double_zero)) UnsupportedOperand"
  using operator_mod_cases [of "VInt (- 7)" "VInt 2"] operator_mod_cases [of "VInt INT64_MIN" "VInt 2"]
    operator_mod_cases [of "VInt 7" "VInt 0"]
    operator_mod_cases [of "VFloat double_zero" "VInt 2"]
    operator_mod_cases [of "VInt 7" "VFloat double_zero"]
  by (simp add: isInt_def operator_mod_def int64_mod_def int64_range_def INT64_MIN_def)

subsection \<open>Addition (C6)\<close>

text \<open>
  Claim C6. Addition by tags: Int + Int is the Int sum (of 64-bit words); a Float and an
  Int, or two Floats, give the Float sum, an Int operand converted to double first;
  String + String is the concatenation; every pairing that is neither two numbers nor
  two Strings fails with \<open>UnsupportedOperand\<close>.
\<close>

theorem operator_add_cases:
  "operator_add (VInt x) (VInt y) = Inr (VInt (x + y))
   \<and> operator_add (VInt x) (VFloat e) = Inr (VFloat (double_add (int64_to_double x) e))
   \<and> operator_add (VFloat d) (VInt y) = Inr (VFloat (double_add d (int64_to_double y)))
   \<and> operator_add (VFloat d) (VFloat e) = Inr (VFloat (double_add d e))
   \<and> operator_add (VString u) (VString w) = Inr (VString (u @ w))
   \<and> (\<not> (isNumber a \<and> isNumber b) \<and> \<not> (isString a \<and> isString b) \<longrightarrow>
        fails_with (operator_add a b) UnsupportedOperand)"
  by (cases a; cases b)
    (simp_all add: operator_add_def isNumber_def isInt_def isFloat_def isString_def kind_of_def)

theorem operator_add_cases_witness:
  "operator_add (VInt 1) (VInt 2) = Inr (VInt 3)
   \<and> operator_add (VInt 1) (VFloat (Double False 1024 0x4000000000000)) = Inr (VFloat (Double False 1024 0xC000000000000))
   \<and> operator_add (VString ''a'') (VString ''b'') = Inr (VString ''ab'')
   \<and> fails_with (operator_add (VBool True) (VInt 1)) UnsupportedOperand
   \<and> fails_with (operator_add (VString ''a'') (VInt 1)) UnsupportedOperand
   \<and> fails_with (operator_add VNull VNull) UnsupportedOperand
   \<and> fails_with (operator_add (VStruct 0) (VStruct 0)) UnsupportedOperand
   \<and> fails_with (operator_add (VArray 0) (VArray 0)) UnsupportedOperand"
  using operator_add_cases [where x = 1 and y = 2 and e = "Double False 1024 0x4000000000000"
      and u = "''a''" and w = "''b''" and a = "VBool True" and b = "VInt 1"]
    operator_add_cases [where a = "VString ''a''" and b = "VInt 1"]
    operator_add_cases [where a = VNull and b = VNull]
    operator_add_cases [where a = "VStruct 0" and b = "VStruct 0"]
    operator_add_cases [where a = "VArray 0" and b = "VArray 0"]
  by (simp add: isNumber_def isInt_def isFloat_def isString_def double_example_add)

subsection \<open>Equality of arrays (C7)\<close>

text \<open>
  Claim C7, as stated, fails: the comparison does not always return. For the array that
  holds a handle to itself, \<open>a == a\<close> compares the element \<open>a\<close> with itself again, and so
  on: no depth of nested calls is enough.
\<close>

theorem array_equality_cyclic_counterexample:
  "fst (createArray empty_store []) = VArray 0
   \<and> \<not> (\<exists>depth r. operator_eq depth cyclic_store (VArray 0) (VArray 0) = Some r)"
  by (simp add: operator_eq_cyclic createArray_def empty_store_def)

text \<open>
  Claim C7, amended. For an array nested within a finite depth, the comparison with
  another array returns; it is true if and only if the two have the same length and the
  elements at every index are equal under \<open>operator==\<close> itself, one call deeper; allowing
  a greater depth does not change the result. Comparing an array with a Value of another
  tag is false.
\<close>

theorem array_equality:
  "nested_within n s (VArray p) \<Longrightarrow>
     (\<exists>r. operator_eq n s (VArray p) (VArray q) = Some r)
     \<and> (operator_eq n s (VArray p) (VArray q) = Some True \<longleftrightarrow>
          length (arrays s p) = length (arrays s q)
          \<and> (\<forall>i<length (arrays s p).
                operator_eq (n - 1) s (arrays s p ! i) (arrays s q ! i) = Some True))
     \<and> (\<forall>m\<ge>n. operator_eq m s (VArray p) (VArray q) = operator_eq n s (VArray p) (VArray q))
     \<and> (getType b \<noteq> Type_Array \<longrightarrow>
          operator_eq n s (VArray p) b = Some False \<and> operator_eq n s b (VArray p) = Some False)"
proof (intro conjI)
  assume nest: "nested_within n s (VArray p)"
  then obtain n' where n: "n = Suc n'" by (cases n) auto
  from nest show ret: "\<exists>r. operator_eq n s (VArray p) (VArray q) = Some r"
    by (rule operator_eq_returns)
  show "operator_eq n s (VArray p) (VArray q) = Some True \<longleftrightarrow>
          length (arrays s p) = length (arrays s q)
          \<and> (\<forall>i<length (arrays s p).
                operator_eq (n - 1) s (arrays s p ! i) (arrays s q ! i) = Some True)"
    using std_equal_True_iff [of "arrays s p" "arrays s q" "operator_eq n' s"]
    by (auto simp: n operator_eq.simps vector_eq_def)
  show "\<forall>m\<ge>n. operator_eq m s (VArray p) (VArray q) = operator_eq n s (VArray p) (VArray q)"
  proof (intro allI impI)
    fix m
    assume "n \<le> m"
    from ret obtain r where r: "operator_eq n s (VArray p) (VArray q) = Some r" by blast
    from operator_eq_mono [OF r \<open>n \<le> m\<close>] r
    show "operator_eq m s (VArray p) (VArray q) = operator_eq n s (VArray p) (VArray q)"
      by simp
  qed
  show "getType b \<noteq> Type_Array \<longrightarrow>
          operator_eq n s (VArray p) b = Some False \<and> operator_eq n s b (VArray p) = Some False"
    by (cases b) (simp_all add: operator_eq.simps)
qed

theorem array_equality_witness:
  "nested_within 1 example_store (VArray 0)
   \<and> operator_eq 1 example_store (VArray 0) (VArray 1) = Some True
   \<and> operator_eq 1 example_store (VArray 0) (VArray 2) = Some False
   \<and> operator_eq 1 example_store (VArray 3) (VArray 4) = Some True
   \<and> operator_eq 1 example_store (VArray 0) (VInt 1) = Some False"
  using array_equality [of 1 example_store 0 1 "VInt 1"] array_equality [of 1 example_store 0 2 "VInt 1"]
    array_equality [of 1 example_store 3 4 "VInt 1"]
  by (simp add: example_store_def createArray_def empty_store_def operator_eq.simps vector_eq_def)

subsection \<open>Truthiness (C8)\<close>

text \<open>
  Claim C8. \<open>isTruthy\<close> has a value for every Value: false for Null, the payload for
  Bool, \<open>\<noteq> 0\<close> for Int, \<open>!= 0.0\<close> (the comparison of doubles: false for both zeros, true
  for a NaN) for Float; for a String, true for \<open>true\<close> and \<open>1\<close>, false for \<open>false\<close> and
  \<open>0\<close>, and otherwise whether the string is non-empty; false for every Record and every
  Array.
\<close>

theorem isTruthy_table:
  "isTruthy VNull = False
   \<and> isTruthy (VBool b) = b
   \<and> isTruthy (VInt i) = (i \<noteq> 0)
   \<and> isTruthy (VFloat d) = (\<not> double_eq d double_zero)
   \<and> isTruthy (VFloat double_zero) = False
   \<and> isTruthy (VFloat (Double True 0 0)) = False
   \<and> isTruthy (VFloat double_nan) = True
   \<and> isTruthy (VString ''true'') = True
   \<and> isTruthy (VString ''1'') = True
   \<and> isTruthy (VString ''false'') = False
   \<and> isTruthy (VString ''0'') = False
   \<and> isTruthy (VString []) = False
   \<and> isTruthy (VString x) = (x \<noteq> [] \<and> x \<noteq> ''false'' \<and> x \<noteq> ''0'')
   \<and> isTruthy (VStruct p) = False
   \<and> isTruthy (VArray q) = False"
  by (auto simp: double_eq_def is_nan_def is_zero_def double_zero_def double_nan_def)

subsection \<open>Numeric coercions (C9)\<close>

text \<open>
  Claim C9, as stated, fails: \<open>asFloat\<close> does not widen every Int exactly. A double has
  53 significant bits, and \<open>2\<^sup>5\<^sup>3 + 1\<close> converts to \<open>2\<^sup>5\<^sup>3\<close>. Nor is \<open>asInt\<close> of a Float
  always its truncation: the double \<open>2\<^sup>6\<^sup>3\<close> is its own truncation and no \<open>int64_t\<close>.
\<close>

theorem numeric_coercions_counterexample:
  "valof (asFloat (VInt 9007199254740993)) \<noteq> of_int (sint (9007199254740993 :: int64))
   \<and> of_int (sint (asInt (VFloat (Double False 1086 0)))) \<noteq> valof (Double False 1086 0)"
  by (simp add: int64_to_double_pow53_succ valof_pow53 valof_pow63 double_to_int64_def
      trunc_rat_def is_finite_def)

text \<open>
  Claim C9, amended. \<open>asInt\<close> and \<open>asFloat\<close> return a number for every Value. \<open>asInt\<close>
  returns the payload of an Int, and for a finite Float whose truncation toward zero
  fits in 64 bits, that truncation. \<open>asFloat\<close> returns the payload of a Float, and for
  an Int the nearest double, ties to the even significand: a finite double, the multiple
  of the spacing of doubles at that magnitude that the Int rounds to, at most half a
  spacing away. It is exactly the Int if and only if the Int is a multiple of that
  spacing, so whenever its magnitude is at most \<open>2\<^sup>5\<^sup>3\<close>. The spacing is the power of two
  that is 1 below \<open>2\<^sup>5\<^sup>3\<close> and leaves 53 significant bits above. For every tag that is not
  a number, \<open>asInt\<close> returns 0 and \<open>asFloat\<close> returns \<open>0.0\<close>.
\<close>

theorem numeric_coercions:
  "asInt (VInt i) = i
   \<and> asFloat (VFloat d) = d
   \<and> (is_finite d \<and> - (2 ^ 63) \<le> trunc_rat (valof d) \<and> trunc_rat (valof d) < 2 ^ 63 \<longrightarrow>
        sint (asInt (VFloat d)) = trunc_rat (valof d))
   \<and> is_finite (asFloat (VInt i))
   \<and> valof (asFloat (VInt i)) =
        of_int (sgn (sint i) *
          (round_half_even (of_int \<bar>sint i\<bar> / of_int (spacing (sint i))) * spacing (sint i)))
   \<and> \<bar>valof (asFloat (VInt i)) - of_int (sint i)\<bar> \<le> of_int (spacing (sint i)) / 2
   \<and> (valof (asFloat (VInt i)) = of_int (sint i) \<longleftrightarrow> spacing (sint i) dvd sint i)
   \<and> (\<bar>sint i\<bar> \<le> 2 ^ 53 \<longrightarrow> valof (asFloat (VInt i)) = of_int (sint i))
   \<and> (\<exists>t. spacing (sint i) = 2 ^ t)
   \<and> \<bar>sint i\<bar> < 2 ^ 53 * spacing (sint i)
   \<and> (spacing (sint i) = 1 \<or> 2 ^ 52 * spacing (sint i) \<le> \<bar>sint i\<bar>)
   \<and> (\<not> isNumber v \<longrightarrow> asInt v = 0 \<and> asFloat v = double_zero)"
proof -
  have c3: "is_finite d \<and> - (2 ^ 63) \<le> trunc_rat (valof d) \<and> trunc_rat (valof d) < 2 ^ 63 \<longrightarrow>
      sint (asInt (VFloat d)) = trunc_rat (valof d)"
    using double_to_int64_trunc [of d] by simp
  have c4: "is_finite (asFloat (VInt i))"
    and c5: "valof (asFloat (VInt i)) =
        of_int (sgn (sint i) *
          (round_half_even (of_int \<bar>sint i\<bar> / of_int (spacing (sint i))) * spacing (sint i)))"
    using int64_to_double_valof [of i] by (simp_all only: asFloat.simps)
  have c6: "\<bar>valof (asFloat (VInt i)) - of_int (sint i)\<bar> \<le> of_int (spacing (sint i)) / 2"
    using int64_to_double_nearest [of i] by (simp only: asFloat.simps)
  have c7: "valof (asFloat (VInt i)) = of_int (sint i) \<longleftrightarrow> spacing (sint i) dvd sint i"
    using int64_to_double_exact_iff [of i] by (simp only: asFloat.simps)
  have c8: "\<bar>sint i\<bar> \<le> 2 ^ 53 \<longrightarrow> valof (asFloat (VInt i)) = of_int (sint i)"
    using int64_to_double_exact [of i] by (simp only: asFloat.simps) blast
  have c9: "(\<exists>t. spacing (sint i) = 2 ^ t)
      \<and> \<bar>sint i\<bar> < 2 ^ 53 * spacing (sint i)
      \<and> (spacing (sint i) = 1 \<or> 2 ^ 52 * spacing (sint i) \<le> \<bar>sint i\<bar>)"
    by (rule spacing_bounds)
  have c10: "\<not> isNumber v \<longrightarrow> asInt v = 0 \<and> asFloat v = double_zero"
    by (cases v) (simp_all add: isNumber_def isInt_def isFloat_def)
  from c3 c4 c5 c6 c7 c8 c9 c10 show ?thesis
    by (simp only: asInt.simps asFloat.simps)
qed

theorem numeric_coercions_witness:
  "is_finite (Double True 1024 0xC000000000000)
   \<and> valof (Double True 1024 0xC000000000000) = - (7 / 2)
   \<and> sint (asInt (VFloat (Double True 1024 0xC000000000000))) = - 3
   \<and> \<bar>sint (- 3 :: int64)\<bar> \<le> 2 ^ 53
   \<and> valof (asFloat (VInt (- 3))) = - 3
   \<and> spacing (sint (9007199254740994 :: int64)) = 2
   \<and> valof (asFloat (VInt 9007199254740994)) = 9007199254740994
   \<and> valof (asFloat (VInt 9007199254740995)) = 9007199254740996
   \<and> spacing (sint INT64_MIN) = 2048
   \<and> valof (asFloat (VInt INT64_MIN)) = - 9223372036854775808
   \<and> asInt (VString ''12'') = 0
   \<and> asFloat (VBool True) = double_zero"
  using numeric_coercions [of "- 3" "Double True 1024 0xC000000000000" "VString ''12''"]
    numeric_coercions [of 9007199254740994 "Double True 1024 0xC000000000000" "VBool True"]
    numeric_coercions [of 9007199254740995 "Double True 1024 0xC000000000000" "VBool True"]
    numeric_coercions [of INT64_MIN "Double True 1024 0xC000000000000" "VBool True"]
  by (simp add: isNumber_def isInt_def isFloat_def is_finite_def valof_example trunc_rat_def
      floor_rat_numeral int64_to_double_examples valof_examples spacing_examples sint_INT64_MIN)

subsection \<open>Rendering of a Record (C10)\<close>

text \<open>
  Claim C10. \<open>toString\<close> of a Record returns without looking at the instance, whatever
  depth it is given, and the result is the string \<open>unknown\<close> for every handle and
  every store, so for every type name and every field map.
\<close>

theorem toString_record_unknown: "toString fmt depth s (VStruct p) = Some ''unknown''"
  by simp

end
